theory Spec2Isabelle
  imports Main "HOL-Library.Char_ord" "HOL-Library.List_Lexorder"
begin

section \<open>JavaScript values used by the store\<close>

text \<open>
  Timestamps are JavaScript numbers that hold integers (microseconds since the epoch).
  They are modelled as \<open>int\<close>; the model covers the integers a number holds exactly
  (absolute value below \<open>2 ^ 53\<close>), where \<open>Number.prototype.toString\<close> prints the plain
  decimal digits. Strings are lists of code units, compared code unit by code unit, which
  is the order of \<open>char list\<close> with \<open>Char_ord\<close> and \<open>List_Lexorder\<close>.
\<close>

definition digitChar :: "nat \<Rightarrow> char" where
  "digitChar d = ''0123456789'' ! d"

fun natToString :: "nat \<Rightarrow> string" where
  "natToString n =
     (if n < 10 then [digitChar n] else natToString (n div 10) @ [digitChar (n mod 10)])"

declare natToString.simps [simp del]

definition numberToString :: "int \<Rightarrow> string" where
  "numberToString n =
     (if n < 0 then CHR ''-'' # natToString (nat (- n)) else natToString (nat n))"

datatype jsval = Num int | Str string

fun toString :: "jsval \<Rightarrow> string" where
  "toString (Num n) = numberToString n"
| "toString (Str s) = s"

fun join :: "string \<Rightarrow> string list \<Rightarrow> string" where
  "join sep [] = []"
| "join sep [x] = x"
| "join sep (x # y # ys) = x @ sep @ join sep (y # ys)"

text \<open>\<open>Array.prototype.toString\<close>: the elements' strings joined by commas.\<close>

definition arrayToString :: "jsval list \<Rightarrow> string" where
  "arrayToString xs = join '','' (map toString xs)"

text \<open>
  The operator \<open><=\<close> applied to two arrays: neither operand is a primitive, so both are
  converted with \<open>toString\<close> and the two strings are compared.
\<close>

definition arrayLessEq :: "jsval list \<Rightarrow> jsval list \<Rightarrow> bool" where
  "arrayLessEq a b = (arrayToString a \<le> arrayToString b)"

section \<open>Items and the items table\<close>

text \<open>
  An item, with the columns of the table \<open>items\<close> as its fields; the field \<open>value\<close> of the
  source is \<open>val\<close> here.
\<close>

record Item =
  schema :: string
  workspace :: string
  key :: string
  val :: string
  timestamp :: int
  author :: string
  signature :: string

text \<open>
  The table \<open>items\<close> is the list of its rows in the order of their insertion. Its primary
  key is \<open>(key, author)\<close>, on which the engine keeps an index.
\<close>

type_synonym Db = "Item list"

text \<open>The store: its workspace (\<open>this.workspace\<close>) and its database (\<open>this.db\<close>).\<close>

record StoreSqlite =
  storeWorkspace :: string
  db :: Db

definition samePrimaryKey :: "Item \<Rightarrow> Item \<Rightarrow> bool" where
  "samePrimaryKey a b = (key a = key b \<and> author a = author b)"

text \<open>A stable insertion sort, for the \<open>ORDER BY\<close> clauses.\<close>

fun insertBy :: "('a \<Rightarrow> 'a \<Rightarrow> bool) \<Rightarrow> 'a \<Rightarrow> 'a list \<Rightarrow> 'a list" where
  "insertBy le x [] = [x]"
| "insertBy le x (y # ys) = (if le x y then x # y # ys else y # insertBy le x ys)"

definition orderBy :: "('a \<Rightarrow> 'a \<Rightarrow> bool) \<Rightarrow> 'a list \<Rightarrow> 'a list" where
  "orderBy le xs = foldr (insertBy le) xs []"

text \<open>
  The queries that select, order or group by \<open>key\<close> read the table through the index of
  the primary key: the rows come in ascending order of \<open>key\<close>, and those of one key in
  ascending order of \<open>author\<close>, whatever the order of their insertion.
\<close>

definition pkOrder :: "Item \<Rightarrow> Item \<Rightarrow> bool" where
  "pkOrder a b = (key a < key b \<or> (key a = key b \<and> author a \<le> author b))"

definition byPrimaryKey :: "Db \<Rightarrow> Item list" where
  "byPrimaryKey rows = orderBy pkOrder rows"

definition firstRow :: "'a list \<Rightarrow> 'a option" where
  "firstRow rows = (case rows of [] \<Rightarrow> None | r # _ \<Rightarrow> Some r)"

text \<open>
  \<open>SELECT * FROM items WHERE key = :key AND author = :author
  ORDER BY timestamp DESC LIMIT 1\<close>, read with \<open>get\<close>. The primary key leaves at most one
  row to select.
\<close>

definition existingSameAuthorSameKey :: "Db \<Rightarrow> Item \<Rightarrow> Item option" where
  "existingSameAuthorSameKey rows item =
     firstRow (orderBy (\<lambda>a b. timestamp b \<le> timestamp a)
       (filter (\<lambda>r. key r = key item \<and> author r = author item) rows))"

text \<open>
  \<open>INSERT OR REPLACE\<close>: the row with the same primary key is deleted and the new row is
  added, as the last one inserted.
\<close>

definition insertOrReplace :: "Db \<Rightarrow> Item \<Rightarrow> Db" where
  "insertOrReplace rows item = filter (\<lambda>r. \<not> samePrimaryKey r item) rows @ [item]"

section \<open>ingestItem\<close>

text \<open>
  \<open>itemIsValid\<close> (of \<open>storeUtils\<close>) is a parameter: a predicate of the item and the
  optional future cutoff. The store is passed in and returned with the answer.
\<close>

definition ingestItem ::
  "(Item \<Rightarrow> int option \<Rightarrow> bool) \<Rightarrow> StoreSqlite \<Rightarrow> Item \<Rightarrow> int option \<Rightarrow> bool \<times> StoreSqlite"
where
  "ingestItem itemIsValid this item futureCutoff =
     (if \<not> itemIsValid item futureCutoff then (False, this)
      else
        (case existingSameAuthorSameKey (db this) item of
           Some existing \<Rightarrow>
             if arrayLessEq [Num (timestamp item), Str (signature item)]
                  [Num (timestamp existing), Str (signature existing)]
             then (False, this)
             else (True, this\<lparr>db := insertOrReplace (db this) item\<rparr>)
         | None \<Rightarrow> (True, this\<lparr>db := insertOrReplace (db this) item\<rparr>)))"

section \<open>Queries\<close>

text \<open>
  The options of a query, each absent or given; \<open>key'\<close> is the option \<open>key\<close> of the source.
\<close>

record QueryOpts =
  key' :: "string option"
  lowKey :: "string option"
  highKey :: "string option"
  prefix :: "string option"
  limit :: "int option"
  includeHistory :: "bool option"

definition emptyQuery :: QueryOpts where
  "emptyQuery = \<lparr>key' = None, lowKey = None, highKey = None, prefix = None, limit = None,
     includeHistory = None\<rparr>"

text \<open>
  The engine's \<open>LIKE\<close> with an escape character: \<open>%\<close> matches any run of characters,
  \<open>_\<close> one character, the escape character makes the next pattern character literal,
  and letters of ASCII match without regard to case.
\<close>

definition toLowerAscii :: "char \<Rightarrow> char" where
  "toLowerAscii c =
     (case map_of (zip ''ABCDEFGHIJKLMNOPQRSTUVWXYZ'' ''abcdefghijklmnopqrstuvwxyz'') c of
        None \<Rightarrow> c
      | Some l \<Rightarrow> l)"

fun like :: "char \<Rightarrow> string \<Rightarrow> string \<Rightarrow> bool" where
  "like esc [] s = (s = [])"
| "like esc (p # ps) s =
     (if p = CHR ''%'' then
        (like esc ps s \<or> (case s of [] \<Rightarrow> False | c # s' \<Rightarrow> like esc (p # ps) s'))
      else if p = esc then
        (case ps of
           [] \<Rightarrow> False
         | q # qs \<Rightarrow>
             (case s of
                [] \<Rightarrow> False
              | c # s' \<Rightarrow> toLowerAscii q = toLowerAscii c \<and> like esc qs s'))
      else if p = CHR ''_'' then (case s of [] \<Rightarrow> False | c # s' \<Rightarrow> like esc ps s')
      else
        (case s of
           [] \<Rightarrow> False
         | c # s' \<Rightarrow> toLowerAscii p = toLowerAscii c \<and> like esc ps s'))"

definition backslash :: char where
  "backslash = CHR 0x5C"

text \<open>\<open>s.split(c).join('\\' + c)\<close>: a backslash before every occurrence of \<open>c\<close>.\<close>

definition escapeChar :: "char \<Rightarrow> string \<Rightarrow> string" where
  "escapeChar c s = concat (map (\<lambda>x. if x = c then [backslash, c] else [x]) s)"

definition escapePrefix :: "string \<Rightarrow> string" where
  "escapePrefix p = escapeChar CHR ''%'' (escapeChar CHR ''_'' p)"

text \<open>The \<open>WHERE\<close> clause that \<open>items\<close> builds from the query.\<close>

definition matchesQuery :: "QueryOpts \<Rightarrow> Item \<Rightarrow> bool" where
  "matchesQuery q r =
     ((case key' q of None \<Rightarrow> True | Some k \<Rightarrow> key r = k) \<and>
      (case lowKey q of None \<Rightarrow> True | Some l \<Rightarrow> l \<le> key r) \<and>
      (case highKey q of None \<Rightarrow> True | Some h \<Rightarrow> key r < h) \<and>
      (case prefix q of
         None \<Rightarrow> True
       | Some p \<Rightarrow> like backslash (escapePrefix p @ ''%'') (key r)))"

text \<open>\<open>ORDER BY key ASC, timestamp DESC, signature DESC\<close>.\<close>

definition newerFirst :: "Item \<Rightarrow> Item \<Rightarrow> bool" where
  "newerFirst a b =
     (timestamp b < timestamp a \<or> (timestamp a = timestamp b \<and> signature b \<le> signature a))"

definition rowOrder :: "Item \<Rightarrow> Item \<Rightarrow> bool" where
  "rowOrder a b = (key a < key b \<or> (key a = key b \<and> newerFirst a b))"

text \<open>
  \<open>SELECT ..., MAX(timestamp) as timestamp, ... GROUP BY key\<close>: one row for each key.
  The columns outside the aggregate come from a row of the group that holds the maximum;
  the aggregate keeps the row it has until it meets a greater timestamp, so among the
  rows that share the maximum the one read first stays. The rows are read through the
  index, so this is the row of the least author.
\<close>

fun maxTimestampRow :: "Item \<Rightarrow> Item list \<Rightarrow> Item" where
  "maxTimestampRow best [] = best"
| "maxTimestampRow best (r # rs) =
     maxTimestampRow (if timestamp best < timestamp r then r else best) rs"

definition groupRows :: "Item list \<Rightarrow> string \<Rightarrow> Item list" where
  "groupRows rows k = filter (\<lambda>r. key r = k) rows"

definition groupMax :: "Item list \<Rightarrow> Item list" where
  "groupMax g = (case g of [] \<Rightarrow> [] | r # rs \<Rightarrow> [maxTimestampRow r rs])"

definition groupByKeyMax :: "Item list \<Rightarrow> Item list" where
  "groupByKeyMax rows = concat (map (\<lambda>k. groupMax (groupRows rows k)) (remdups (map key rows)))"

definition limitClause :: "QueryOpts \<Rightarrow> Item list \<Rightarrow> Item list" where
  "limitClause q rows =
     (case limit q of
        None \<Rightarrow> rows
      | Some n \<Rightarrow> if 0 < n then take (nat n) rows else rows)"

definition items :: "Db \<Rightarrow> QueryOpts option \<Rightarrow> Item list" where
  "items rows query =
     (let q = (case query of None \<Rightarrow> emptyQuery | Some q \<Rightarrow> q);
          matching = filter (matchesQuery q) (byPrimaryKey rows)
      in if includeHistory q = Some True
         then limitClause q (orderBy rowOrder matching)
         else limitClause q (orderBy rowOrder (groupByKeyMax matching)))"

text \<open>
  \<open>SELECT * FROM items WHERE key = :key ORDER BY timestamp DESC, signature DESC LIMIT 1\<close>.
\<close>

definition getItem :: "Db \<Rightarrow> string \<Rightarrow> Item option" where
  "getItem rows k =
     firstRow (orderBy newerFirst (filter (\<lambda>r. key r = k) (byPrimaryKey rows)))"

section \<open>set\<close>

text \<open>
  What \<open>set\<close> is called with: the fields \<open>schema\<close>, \<open>key\<close>, \<open>value\<close>, \<open>author\<close>,
  \<open>authorSecret\<close> and \<open>timestamp\<close> of the source, here with the prefix \<open>set\<close>.
\<close>

record ItemToSet =
  setSchema :: "string option"
  setKey :: string
  setValue :: string
  setAuthor :: string
  setAuthorSecret :: string
  setTimestamp :: "int option"

text \<open>
  Modelled from the spec: \<open>signItem\<close> of \<open>storeUtils\<close> is not among the sources. The
  spec gives the signing collaborator as \<open>sign(document, secretKey) -> signature\<close>, so the
  signed item is the item with its signature set to what the parameter \<open>sign\<close> returns.
\<close>

definition signItem :: "(Item \<Rightarrow> string \<Rightarrow> string) \<Rightarrow> Item \<Rightarrow> string \<Rightarrow> Item" where
  "signItem sign item secret = item\<lparr>signature := sign item secret\<rparr>"

text \<open>
  The item that \<open>set\<close> builds, before it is signed. \<open>now\<close> is \<open>Date.now()*1000\<close>. An
  absent value and the values JavaScript counts as false (\<open>0\<close>, the empty string) take
  the default of \<open>||\<close>.
\<close>

definition itemOfSet :: "int \<Rightarrow> StoreSqlite \<Rightarrow> ItemToSet \<Rightarrow> Item" where
  "itemOfSet now this itemToSet =
     (let requested = (case setTimestamp itemToSet of None \<Rightarrow> 0 | Some t \<Rightarrow> t);
          item = \<lparr>schema =
                    (case setSchema itemToSet of
                       None \<Rightarrow> ''kw.1''
                     | Some s \<Rightarrow> if s = [] then ''kw.1'' else s),
                  workspace = storeWorkspace this,
                  key = setKey itemToSet,
                  val = setValue itemToSet,
                  timestamp = (if 0 < requested then requested else now),
                  author = setAuthor itemToSet,
                  signature = []\<rparr>;
          existingItemTimestamp =
            (case getItem (db this) (key item) of None \<Rightarrow> 0 | Some e \<Rightarrow> timestamp e)
      in item\<lparr>timestamp := max (timestamp item) (existingItemTimestamp + 1)\<rparr>)"

definition set_item ::
  "(Item \<Rightarrow> int option \<Rightarrow> bool) \<Rightarrow> (Item \<Rightarrow> string \<Rightarrow> string) \<Rightarrow> int \<Rightarrow>
     StoreSqlite \<Rightarrow> ItemToSet \<Rightarrow> bool \<times> StoreSqlite"
where
  "set_item itemIsValid sign now this itemToSet =
     (let item = itemOfSet now this itemToSet;
          signedItem = signItem sign item (setAuthorSecret itemToSet)
      in ingestItem itemIsValid this signedItem (Some (timestamp item)))"

section \<open>Syncing two stores\<close>

datatype error = Thrown string | JsonRejected

datatype Direction = Push | Pull | Both

record SyncOpts =
  direction :: "Direction option"
  existing :: "bool option"
  live :: "bool option"

record SyncResults =
  numPushed :: nat
  numPulled :: nat

text \<open>
  Stores are objects: \<open>sync\<close> compares them by identity and changes both. The heap maps
  a reference to the store it holds.
\<close>

type_synonym ref = nat
type_synonym Heap = "ref \<Rightarrow> StoreSqlite"

fun ingestAll ::
  "(Item \<Rightarrow> int option \<Rightarrow> bool) \<Rightarrow> StoreSqlite \<Rightarrow> Item list \<Rightarrow> nat \<Rightarrow> nat \<times> StoreSqlite"
where
  "ingestAll itemIsValid this [] numSuccess = (numSuccess, this)"
| "ingestAll itemIsValid this (item # rest) numSuccess =
     (case ingestItem itemIsValid this item None of
        (success, this') \<Rightarrow>
          ingestAll itemIsValid this' rest (if success then numSuccess + 1 else numSuccess))"

definition historyQuery :: QueryOpts where
  "historyQuery = emptyQuery\<lparr>includeHistory := Some True\<rparr>"

definition syncFrom ::
  "(Item \<Rightarrow> int option \<Rightarrow> bool) \<Rightarrow> Heap \<Rightarrow> ref \<Rightarrow> ref \<Rightarrow> bool \<Rightarrow> bool \<Rightarrow> (error + nat) \<times> Heap"
where
  "syncFrom itemIsValid h this otherStore existing' live' =
     (if live' then (Inl (Thrown ''live sync not implemented yet''), h)
      else if existing' then
        (case ingestAll itemIsValid (h this) (items (db (h otherStore)) (Some historyQuery)) 0 of
           (numSuccess, this') \<Rightarrow> (Inr numSuccess, h(this := this')))
      else (Inr 0, h))"

definition sync ::
  "(Item \<Rightarrow> int option \<Rightarrow> bool) \<Rightarrow> Heap \<Rightarrow> ref \<Rightarrow> ref \<Rightarrow> SyncOpts option \<Rightarrow>
     (error + SyncResults) \<times> Heap"
where
  "sync itemIsValid h this otherStore opts =
     (if otherStore = this then (Inr \<lparr>numPushed = 0, numPulled = 0\<rparr>, h)
      else if storeWorkspace (h this) \<noteq> storeWorkspace (h otherStore)
      then (Inr \<lparr>numPushed = 0, numPulled = 0\<rparr>, h)
      else
        (let direction' =
               (case opts of
                  None \<Rightarrow> Both
                | Some o' \<Rightarrow> (case direction o' of None \<Rightarrow> Both | Some d \<Rightarrow> d));
             existing' =
               (case opts of
                  None \<Rightarrow> True
                | Some o' \<Rightarrow> (case existing o' of None \<Rightarrow> True | Some e \<Rightarrow> e));
             live' =
               (case opts of
                  None \<Rightarrow> False
                | Some o' \<Rightarrow> (case live o' of None \<Rightarrow> False | Some l \<Rightarrow> l))
         in
           (case (if direction' = Pull \<or> direction' = Both
                  then syncFrom itemIsValid h this otherStore existing' live'
                  else (Inr 0, h)) of
              (Inl e, h1) \<Rightarrow> (Inl e, h1)
            | (Inr pulled, h1) \<Rightarrow>
                (case (if direction' = Push \<or> direction' = Both
                       then syncFrom itemIsValid h1 otherStore this existing' live'
                       else (Inr 0, h1)) of
                   (Inl e, h2) \<Rightarrow> (Inl e, h2)
                 | (Inr pushed, h2) \<Rightarrow>
                     (Inr \<lparr>numPushed = pushed, numPulled = pulled\<rparr>, h2)))))"

section \<open>One pass against a pub\<close>

definition ensureTrailingSlash :: "string \<Rightarrow> string" where
  "ensureTrailingSlash url = (if url \<noteq> [] \<and> last url = CHR ''/'' then url else url @ ''/'')"

definition urlGetDocuments :: "string \<Rightarrow> string \<Rightarrow> string" where
  "urlGetDocuments domain' workspace' =
     domain' @ ''earthstar-api/v1/workspace/'' @ drop 2 workspace' @ ''/documents''"

definition urlPostDocuments :: "string \<Rightarrow> string \<Rightarrow> string" where
  "urlPostDocuments = urlGetDocuments"

record PullStats =
  numIngested :: nat
  numIgnored :: nat
  numTotal :: nat

record 'p ResultStats =
  pull :: "PullStats option"
  push :: "'p option"
  pushStats :: "'p option"

text \<open>
  A response: its status, and the value its body parses to (\<open>None\<close> when \<open>resp.json()\<close>
  rejects). \<open>fetch\<close> returns \<open>None\<close> when it throws, the server being out of reach.
\<close>

record 'j Response =
  status :: nat
  json :: "'j option"

datatype 'd Request = GET string | POST string "'d list"

text \<open>
  What the pass works with: the storage (the sources hold only the interface \<open>IStorage\<close>,
  so its operations are parameters), the network and the clock. \<open>dateNow n\<close> is what the
  call number \<open>n\<close> of \<open>Date.now()\<close> returns.
\<close>

record ('st, 'd, 'p) Env =
  storageWorkspace :: "'st \<Rightarrow> string"
  ingestDocument :: "'st \<Rightarrow> 'd \<Rightarrow> bool \<times> 'st"
  documents :: "'st \<Rightarrow> 'd list"
  fetchGet :: "string \<Rightarrow> 'd list Response option"
  fetchPost :: "string \<Rightarrow> 'd list \<Rightarrow> 'p Response option"
  dateNow :: "nat \<Rightarrow> int"

fun ingestDocs ::
  "('st \<Rightarrow> 'd \<Rightarrow> bool \<times> 'st) \<Rightarrow> 'st \<Rightarrow> 'd list \<Rightarrow> PullStats \<Rightarrow> PullStats \<times> 'st"
where
  "ingestDocs ingest storage [] stats = (stats, storage)"
| "ingestDocs ingest storage (doc # docs) stats =
     (case ingest storage doc of
        (accepted, storage') \<Rightarrow>
          ingestDocs ingest storage' docs
            (if accepted then stats\<lparr>numIngested := numIngested stats + 1\<rparr>
             else stats\<lparr>numIgnored := numIgnored stats + 1\<rparr>))"

text \<open>The pull phase once the server has answered.\<close>

definition pullPhase ::
  "('st, 'd, 'p) Env \<Rightarrow> 'st \<Rightarrow> 'd list Response \<Rightarrow> (error + PullStats) \<times> 'st"
where
  "pullPhase env storage resp =
     (let stats = \<lparr>numIngested = 0, numIgnored = 0, numTotal = 0\<rparr>
      in if status resp = 404 then (Inr stats, storage)
         else
           (case json resp of
              None \<Rightarrow> (Inl JsonRejected, storage)
            | Some docs \<Rightarrow>
                (case ingestDocs (ingestDocument env) storage docs
                        (stats\<lparr>numTotal := length docs\<rparr>) of
                   (stats', storage') \<Rightarrow> (Inr stats', storage'))))"

text \<open>
  The pass returns its result (or the exception that escapes), the storage, and the
  requests it made, oldest first.
\<close>

definition syncLocalAndHttp ::
  "('st, 'd, 'p) Env \<Rightarrow> 'st \<Rightarrow> string \<Rightarrow> (error + 'p ResultStats) \<times> 'st \<times> 'd Request list"
where
  "syncLocalAndHttp env storage domain0 =
     (let resultStats = \<lparr>pull = None, push = None, pushStats = None\<rparr>;
          domain' = ensureTrailingSlash domain0;
          url = urlGetDocuments domain' (storageWorkspace env storage)
      in
        (case fetchGet env url of
           None \<Rightarrow> (Inr resultStats, storage, [GET url])
         | Some resp \<Rightarrow>
             (case pullPhase env storage resp of
                (Inl e, storage1) \<Rightarrow> (Inl e, storage1, [GET url])
              | (Inr stats, storage1) \<Rightarrow>
                  (let resultStats1 = resultStats\<lparr>pull := Some stats\<rparr>;
                       url2 = urlPostDocuments domain' (storageWorkspace env storage1);
                       body = documents env storage1;
                       requests = [GET url, POST url2 body]
                   in
                     (case fetchPost env url2 body of
                        None \<Rightarrow> (Inr resultStats1, storage1, requests)
                      | Some resp2 \<Rightarrow>
                          if status resp2 = 404 then (Inr resultStats1, storage1, requests)
                          else if status resp2 = 403 then (Inr resultStats1, storage1, requests)
                          else
                            (case json resp2 of
                               None \<Rightarrow> (Inl JsonRejected, storage1, requests)
                             | Some stats2 \<Rightarrow>
                                 (Inr (resultStats1\<lparr>pushStats := Some stats2\<rparr>), storage1,
                                  requests)))))))"

section \<open>The syncer\<close>

datatype SyncStatus = Idle | Syncing | Success | Failure

record Pub =
  domain :: string
  pubSyncState :: SyncStatus
  pubLastSync :: int

record SyncState =
  pubs :: "Pub list"
  syncState :: SyncStatus
  lastSync :: int

text \<open>
  What a run of \<open>Syncer.sync\<close> carries through its loop: the storage, the number of calls
  of \<open>Date.now()\<close> made, the two counters, the results it logged and the requests made.
\<close>

record ('st, 'd, 'p) Run =
  storage :: 'st
  ticks :: nat
  numSuccessfulPubs :: nat
  numFailedPubs :: nat
  logged :: "'p ResultStats list"
  requested :: "'d Request list"

text \<open>
  The loop over the pubs. When a pass throws, the exception leaves \<open>sync\<close>: the pub stays
  \<open>syncing\<close> and the pubs after it are not visited.
\<close>

fun syncPubs ::
  "('st, 'd, 'p) Env \<Rightarrow> Pub list \<Rightarrow> ('st, 'd, 'p) Run \<Rightarrow>
     error option \<times> Pub list \<times> ('st, 'd, 'p) Run"
where
  "syncPubs env [] run = (None, [], run)"
| "syncPubs env (pub # rest) run =
     (case syncLocalAndHttp env (storage run) (domain pub) of
        (Inl e, storage', reqs) \<Rightarrow>
          (Some e, pub\<lparr>pubSyncState := Syncing\<rparr> # rest,
           run\<lparr>storage := storage', requested := requested run @ reqs\<rparr>)
      | (Inr resultStats, storage', reqs) \<Rightarrow>
          (let run1 = run\<lparr>storage := storage', requested := requested run @ reqs,
                        logged := logged run @ [resultStats]\<rparr>;
               failed = (pull resultStats = None \<and> push resultStats = None);
               pub' = (if failed then pub\<lparr>pubSyncState := Failure\<rparr>
                       else pub\<lparr>pubLastSync := dateNow env (ticks run1),
                              pubSyncState := Success\<rparr>);
               run2 = (if failed then run1\<lparr>numFailedPubs := numFailedPubs run1 + 1\<rparr>
                       else run1\<lparr>ticks := ticks run1 + 1,
                              numSuccessfulPubs := numSuccessfulPubs run1 + 1\<rparr>)
           in
             (case syncPubs env rest run2 of
                (err, rest', run3) \<Rightarrow> (err, pub' # rest', run3))))"

definition newRun :: "'st \<Rightarrow> ('st, 'd, 'p) Run" where
  "newRun st = \<lparr>storage = st, ticks = 0, numSuccessfulPubs = 0, numFailedPubs = 0,
     logged = [], requested = []\<rparr>"

definition Syncer_sync ::
  "('st, 'd, 'p) Env \<Rightarrow> SyncState \<Rightarrow> 'st \<Rightarrow> error option \<times> SyncState \<times> ('st, 'd, 'p) Run"
where
  "Syncer_sync env state st =
     (let state1 = state\<lparr>syncState := Syncing\<rparr>
      in
        (case syncPubs env (pubs state1) (newRun st) of
           (Some e, pubs', run) \<Rightarrow> (Some e, state1\<lparr>pubs := pubs'\<rparr>, run)
         | (None, pubs', run) \<Rightarrow>
             (None,
              state1\<lparr>pubs := pubs',
                lastSync := dateNow env (ticks run),
                syncState :=
                  (if 0 < numSuccessfulPubs run then Success
                   else if 0 < numFailedPubs run then Failure
                   else Idle)\<rparr>,
              run\<lparr>ticks := ticks run + 1\<rparr>)))"

section \<open>Notions the statements use\<close>

text \<open>The address both requests of a pass go to.\<close>

definition pubUrl :: "('st, 'd, 'p) Env \<Rightarrow> 'st \<Rightarrow> string \<Rightarrow> string" where
  "pubUrl env st d = urlGetDocuments (ensureTrailingSlash d) (storageWorkspace env st)"

definition noPull :: PullStats where
  "noPull = \<lparr>numIngested = 0, numIgnored = 0, numTotal = 0\<rparr>"



text \<open>The query with its limit taken away.\<close>

definition withoutLimit :: "QueryOpts \<Rightarrow> QueryOpts" where
  "withoutLimit q = q\<lparr>limit := None\<rparr>"

section \<open>Example stores, networks and pubs\<close>

definition row20 :: Item where
  "row20 = \<lparr>schema = ''kw.1'', workspace = ''//demo'', key = ''k'', val = ''new'',
     timestamp = 20, author = ''a'', signature = ''s2''\<rparr>"

definition row10 :: Item where
  "row10 = \<lparr>schema = ''kw.1'', workspace = ''//demo'', key = ''k'', val = ''old'',
     timestamp = 10, author = ''a'', signature = ''s1''\<rparr>"

definition store20 :: StoreSqlite where
  "store20 = \<lparr>storeWorkspace = ''//demo'', db = [row20]\<rparr>"

definition emptyStore :: StoreSqlite where
  "emptyStore = \<lparr>storeWorkspace = ''//demo'', db = []\<rparr>"

definition elsewhereStore :: StoreSqlite where
  "elsewhereStore = \<lparr>storeWorkspace = ''//elsewhere'', db = []\<rparr>"

text \<open>A validator that checks the future cutoff and nothing else.\<close>

definition validByCutoff :: "Item \<Rightarrow> int option \<Rightarrow> bool" where
  "validByCutoff item futureCutoff =
     (case futureCutoff of None \<Rightarrow> True | Some c \<Rightarrow> timestamp item \<le> c)"

text \<open>Three stores: two of the workspace \<open>//demo\<close> at 0 and 1, one of another at 2.\<close>

definition heapEx :: Heap where
  "heapEx r = (if r = 0 then store20 else if r = 1 then emptyStore else elsewhereStore)"

definition liveOpts :: SyncOpts where
  "liveOpts = \<lparr>direction = None, existing = None, live = Some True\<rparr>"

definition pushOpts :: SyncOpts where
  "pushOpts = \<lparr>direction = Some Push, existing = Some True, live = None\<rparr>"

text \<open>The pass over a \<open>StoreSqlite\<close>, with a network given by its two answers.\<close>

definition sqliteEnv ::
  "(string \<Rightarrow> Item list Response option) \<Rightarrow>
   (string \<Rightarrow> Item list \<Rightarrow> PullStats Response option) \<Rightarrow> (StoreSqlite, Item, PullStats) Env"
where
  "sqliteEnv get post =
     \<lparr>storageWorkspace = storeWorkspace,
      ingestDocument = (\<lambda>st doc. ingestItem validByCutoff st doc None),
      documents = (\<lambda>st. items (db st) (Some historyQuery)),
      fetchGet = get,
      fetchPost = post,
      dateNow = (\<lambda>n. 1000 + int n)\<rparr>"

definition serverTakesAll :: "string \<Rightarrow> Item list \<Rightarrow> PullStats Response option" where
  "serverTakesAll url body =
     Some \<lparr>status = 200,
       json = Some \<lparr>numIngested = length body, numIgnored = 0, numTotal = length body\<rparr>\<rparr>"

definition envDown :: "(StoreSqlite, Item, PullStats) Env" where
  "envDown = sqliteEnv (\<lambda>url. None) (\<lambda>url body. None)"

definition envPullThenDown :: "(StoreSqlite, Item, PullStats) Env" where
  "envPullThenDown =
     sqliteEnv (\<lambda>url. Some \<lparr>status = 200, json = Some [row10]\<rparr>) (\<lambda>url body. None)"

definition env404 :: "(StoreSqlite, Item, PullStats) Env" where
  "env404 = sqliteEnv (\<lambda>url. Some \<lparr>status = 404, json = None\<rparr>) serverTakesAll"









definition demoUrl :: "string \<Rightarrow> string" where
  "demoUrl host = ''https://'' @ host @ ''/earthstar-api/v1/workspace/demo/documents''"


text \<open>Rows of one key and one author whose timestamps have one and two digits.\<close>

definition row9 :: Item where
  "row9 = \<lparr>schema = ''kw.1'', workspace = ''//demo'', key = ''k'', val = ''oldest'',
     timestamp = 9, author = ''a'', signature = ''s0''\<rparr>"

definition store9 :: StoreSqlite where
  "store9 = \<lparr>storeWorkspace = ''//demo'', db = [row9]\<rparr>"

definition store10 :: StoreSqlite where
  "store10 = \<lparr>storeWorkspace = ''//demo'', db = [row10]\<rparr>"

text \<open>
  Two rows whose timestamps are one microsecond apart, in September 2001, where the
  count of microseconds since the epoch passes from 15 digits to 16.
\<close>

definition rowDigits15 :: Item where
  "rowDigits15 = \<lparr>schema = ''kw.1'', workspace = ''//demo'', key = ''k'', val = ''before'',
     timestamp = 999999999999999, author = ''a'', signature = ''s0''\<rparr>"

definition rowDigits16 :: Item where
  "rowDigits16 = \<lparr>schema = ''kw.1'', workspace = ''//demo'', key = ''k'', val = ''after'',
     timestamp = 1000000000000000, author = ''a'', signature = ''s1''\<rparr>"

definition store15 :: StoreSqlite where
  "store15 = \<lparr>storeWorkspace = ''//demo'', db = [rowDigits15]\<rparr>"

definition store16 :: StoreSqlite where
  "store16 = \<lparr>storeWorkspace = ''//demo'', db = [rowDigits16]\<rparr>"

text \<open>Requests to \<open>set\<close>, a signing function and the row the first request stores.\<close>

definition demoSign :: "Item \<Rightarrow> string \<Rightarrow> string" where
  "demoSign item secret = ''sig-'' @ val item"

definition setAt9 :: ItemToSet where
  "setAt9 = \<lparr>setSchema = None, setKey = ''k'', setValue = ''first'', setAuthor = ''a'',
     setAuthorSecret = ''secret'', setTimestamp = Some 9\<rparr>"

definition setInPast :: ItemToSet where
  "setInPast = \<lparr>setSchema = None, setKey = ''k'', setValue = ''second'', setAuthor = ''a'',
     setAuthorSecret = ''secret'', setTimestamp = Some 5\<rparr>"

definition setNow :: ItemToSet where
  "setNow = \<lparr>setSchema = None, setKey = ''k'', setValue = ''third'', setAuthor = ''a'',
     setAuthorSecret = ''secret'', setTimestamp = None\<rparr>"

definition storeSet9 :: StoreSqlite where
  "storeSet9 =
     \<lparr>storeWorkspace = ''//demo'',
      db = [\<lparr>schema = ''kw.1'', workspace = ''//demo'', key = ''k'', val = ''first'',
             timestamp = 9, author = ''a'', signature = ''sig-first''\<rparr>]\<rparr>"

text \<open>
  Two rows of one key from two authors with the same timestamp, a row of another key,
  and a query that asks for one row.
\<close>

definition tieA :: Item where
  "tieA = \<lparr>schema = ''kw.1'', workspace = ''//demo'', key = ''k'', val = ''from a'',
     timestamp = 5, author = ''a'', signature = ''s1''\<rparr>"

definition tieB :: Item where
  "tieB = \<lparr>schema = ''kw.1'', workspace = ''//demo'', key = ''k'', val = ''from b'',
     timestamp = 5, author = ''b'', signature = ''s2''\<rparr>"

definition rowM :: Item where
  "rowM = \<lparr>schema = ''kw.1'', workspace = ''//demo'', key = ''m'', val = ''other key'',
     timestamp = 7, author = ''b'', signature = ''s7''\<rparr>"

definition limitOne :: QueryOpts where
  "limitOne = emptyQuery\<lparr>limit := Some 1\<rparr>"

section \<open>Evaluating the examples\<close>

text \<open>The definitions that the simplifier unfolds to run the model on an example.\<close>

lemmas eval_defs =
  ingestItem_def existingSameAuthorSameKey_def orderBy_def firstRow_def arrayLessEq_def
  arrayToString_def numberToString_def natToString.simps digitChar_def insertOrReplace_def
  samePrimaryKey_def

lemmas pass_defs =
  syncLocalAndHttp_def pullPhase_def pubUrl_def urlGetDocuments_def urlPostDocuments_def
  ensureTrailingSlash_def sqliteEnv_def Let_def demoUrl_def

lemmas query_defs =
  items_def historyQuery_def emptyQuery_def matchesQuery_def limitClause_def rowOrder_def
  newerFirst_def byPrimaryKey_def pkOrder_def getItem_def groupByKeyMax_def groupRows_def
  groupMax_def

section \<open>The comparison in ingestItem\<close>

text \<open>
  What \<open>ingestItem\<close> does with a valid item when a row of its key and author exists: it
  compares the strings \<open>timestamp,signature\<close> of the two, and refuses the item exactly
  when its string is less than or equal to the row's.
\<close>

lemma ingestItem_existing:
  assumes "itemIsValid item futureCutoff"
    and "existingSameAuthorSameKey (db this) item = Some stored"
  shows "fst (ingestItem itemIsValid this item futureCutoff) =
           (\<not> numberToString (timestamp item) @ '','' @ signature item
               \<le> numberToString (timestamp stored) @ '','' @ signature stored)"
  using assms by (simp add: ingestItem_def arrayLessEq_def arrayToString_def)

lemma existing_after_insert:
  "existingSameAuthorSameKey (insertOrReplace rows item) item = Some item"
proof -
  have "filter (\<lambda>r. key r = key item \<and> author r = author item) (insertOrReplace rows item) = [item]"
    by (simp add: insertOrReplace_def samePrimaryKey_def filter_empty_conv)
  then show ?thesis
    by (simp add: existingSameAuthorSameKey_def orderBy_def firstRow_def)
qed

text \<open>An item offered a second time, with the same cutoff, is refused.\<close>

lemma ingestItem_twice:
  assumes "ingestItem itemIsValid this item futureCutoff = (accepted, this')"
  shows "ingestItem itemIsValid this' item futureCutoff = (False, this')"
proof (cases "itemIsValid item futureCutoff")
  case False
  then show ?thesis by (simp add: ingestItem_def)
next
  case True
  show ?thesis
  proof (cases accepted)
    case False
    with assms have "this' = this"
      by (auto simp: ingestItem_def split: option.splits if_splits)
    with assms False show ?thesis by simp
  next
    case acc: True
    with assms True have "this' = this\<lparr>db := insertOrReplace (db this) item\<rparr>"
      by (auto simp: ingestItem_def split: option.splits if_splits)
    then show ?thesis
      using True by (simp add: ingestItem_def existing_after_insert arrayLessEq_def)
  qed
qed

lemma of_char_digitChar: "d < 10 \<Longrightarrow> of_char (digitChar d) = 48 + d"
proof -
  assume "d < 10"
  then have "d \<in> {0, 1, 2, 3, 4, 5, 6, 7, 8, 9}" by auto
  then show ?thesis by (auto simp: digitChar_def)
qed

lemma digitChar_less: "d < 10 \<Longrightarrow> e < 10 \<Longrightarrow> digitChar d < digitChar e \<longleftrightarrow> d < e"
  by (simp add: less_char_def of_char_digitChar)

lemma digitChar_eq: "d < 10 \<Longrightarrow> e < 10 \<Longrightarrow> digitChar d = digitChar e \<longleftrightarrow> d = e"
  by (metis digitChar_less less_irrefl linorder_neqE_nat)

lemma natToString_length_one: "length (natToString n) = Suc 0 \<longleftrightarrow> n < 10"
proof (cases "n < 10")
  case True
  then show ?thesis by (simp add: natToString.simps)
next
  case False
  have "natToString (n div 10) \<noteq> []"
    by (subst natToString.simps) simp
  then have "length (natToString (n div 10)) \<noteq> 0" by simp
  with False show ?thesis by (subst natToString.simps) simp
qed

lemma less_append_same_length:
  "length xs = length ys \<Longrightarrow>
   (xs @ us < ys @ vs) = (xs < ys \<or> (xs = ys \<and> us < vs))" for xs :: "char list"
  by (induction xs ys rule: list_induct2) auto

lemma decimal_less:
  fixes a b c d :: nat
  assumes "b < 10" and "d < 10"
  shows "(10 * a + b < 10 * c + d) = (a < c \<or> (a = c \<and> b < d))"
proof (cases a c rule: linorder_cases)
  case less
  then have "10 * a + 10 \<le> 10 * c" by simp
  with assms less show ?thesis by linarith
next
  case equal
  then show ?thesis by simp
next
  case greater
  then have "10 * c + 10 \<le> 10 * a" by simp
  with assms greater show ?thesis by linarith
qed

lemma decimal_eq:
  fixes a b c d :: nat
  assumes "b < 10" and "d < 10"
  shows "(10 * a + b = 10 * c + d) = (a = c \<and> b = d)"
  using decimal_less [OF assms, of a c] decimal_less [OF assms(2) assms(1), of c a]
  by (metis add_left_cancel less_irrefl linorder_neqE_nat)


lemma natToString_order:
  "length (natToString m) = length (natToString n) \<Longrightarrow>
   (natToString m < natToString n) = (m < n) \<and> (natToString m = natToString n) = (m = n)"
proof (induction m arbitrary: n rule: natToString.induct)
  case (1 m)
  show ?case
  proof (cases "m < 10")
    case True
    then have "length (natToString n) = Suc 0"
      using "1.prems" natToString_length_one [of m] by simp
    then have n: "n < 10" by (simp add: natToString_length_one)
    with True show ?thesis
      by (simp add: natToString.simps [of m] natToString.simps [of n] digitChar_less
          digitChar_eq)
  next
    case False
    then have "length (natToString n) \<noteq> Suc 0"
      using "1.prems" natToString_length_one [of m] by simp
    then have n: "\<not> n < 10" by (simp add: natToString_length_one)
    have m': "natToString m = natToString (m div 10) @ [digitChar (m mod 10)]"
      using False by (subst natToString.simps) simp
    have n': "natToString n = natToString (n div 10) @ [digitChar (n mod 10)]"
      using n by (subst natToString.simps) simp
    have len: "length (natToString (m div 10)) = length (natToString (n div 10))"
      using "1.prems" by (simp add: m' n')
    from "1.IH" [OF False len]
    have lt: "(natToString (m div 10) < natToString (n div 10)) = (m div 10 < n div 10)"
      and eq: "(natToString (m div 10) = natToString (n div 10)) = (m div 10 = n div 10)"
      by simp_all
    have dl: "(digitChar (m mod 10) < digitChar (n mod 10)) = (m mod 10 < n mod 10)"
      by (simp add: digitChar_less)
    have de: "(digitChar (m mod 10) = digitChar (n mod 10)) = (m mod 10 = n mod 10)"
      by (simp add: digitChar_eq)
    have "(natToString m < natToString n) =
        (m div 10 < n div 10 \<or> (m div 10 = n div 10 \<and> m mod 10 < n mod 10))"
      by (simp add: m' n' less_append_same_length [OF len] lt eq dl)
    moreover have "(natToString m = natToString n) = (m div 10 = n div 10 \<and> m mod 10 = n mod 10)"
      by (simp add: m' n' eq de)
    moreover have "(m < n) = (m div 10 < n div 10 \<or> (m div 10 = n div 10 \<and> m mod 10 < n mod 10))"
    proof -
      have "(m < n) = (10 * (m div 10) + m mod 10 < 10 * (n div 10) + n mod 10)"
        by (simp only: mult_div_mod_eq)
      also have "\<dots> = (m div 10 < n div 10 \<or> (m div 10 = n div 10 \<and> m mod 10 < n mod 10))"
        by (rule decimal_less) simp_all
      finally show ?thesis .
    qed
    moreover have "(m = n) = (m div 10 = n div 10 \<and> m mod 10 = n mod 10)"
    proof -
      have "(m = n) = (10 * (m div 10) + m mod 10 = 10 * (n div 10) + n mod 10)"
        by (simp only: mult_div_mod_eq)
      also have "\<dots> = (m div 10 = n div 10 \<and> m mod 10 = n mod 10)"
        by (rule decimal_eq) simp_all
      finally show ?thesis .
    qed
    ultimately show ?thesis by simp
  qed
qed

text \<open>
  Where the comparison of the code is the comparison of pairs: two timestamps that are
  not negative and print with the same number of digits.
\<close>

lemma arrayLessEq_same_digits:
  assumes "0 \<le> t1" and "0 \<le> t2"
    and "length (numberToString t1) = length (numberToString t2)"
  shows "arrayLessEq [Num t1, Str s1] [Num t2, Str s2] = (t1 < t2 \<or> (t1 = t2 \<and> s1 \<le> s2))"
proof -
  let ?a = "natToString (nat t1)" and ?b = "natToString (nat t2)"
  have len: "length ?a = length ?b"
    using assms by (simp add: numberToString_def)
  from natToString_order [OF len] assms(1,2)
  have lt: "(?a < ?b) = (t1 < t2)" and eq: "(?a = ?b) = (t1 = t2)"
    by auto
  have "arrayLessEq [Num t1, Str s1] [Num t2, Str s2] =
      (?a @ CHR '','' # s1 \<le> ?b @ CHR '','' # s2)"
    using assms(1,2) by (simp add: arrayLessEq_def arrayToString_def numberToString_def)
  also have "\<dots> = (?a @ CHR '','' # s1 < ?b @ CHR '','' # s2 \<or> ?a @ CHR '','' # s1 = ?b @ CHR '','' # s2)"
    by (rule le_less)
  also have "\<dots> = (t1 < t2 \<or> (t1 = t2 \<and> s1 \<le> s2))"
    using len by (auto simp: less_append_same_length lt eq)
  finally show ?thesis .
qed


lemma ingestItem_same_digits:
  assumes "itemIsValid item futureCutoff"
    and "existingSameAuthorSameKey (db this) item = Some stored"
    and "0 \<le> timestamp item" and "0 \<le> timestamp stored"
    and "length (numberToString (timestamp item)) = length (numberToString (timestamp stored))"
  shows "fst (ingestItem itemIsValid this item futureCutoff) =
           (\<not> (timestamp item < timestamp stored \<or>
               (timestamp item = timestamp stored \<and> signature item \<le> signature stored)))"
  using assms(1,2) arrayLessEq_same_digits [OF assms(3,4,5)]
  by (simp add: ingestItem_def)

text \<open>
  C1, the code at the failing input. The store holds the row of timestamp 10. The valid
  item of timestamp 9 from the same author, which the claim has rejected since
  \<open>(9, s0) \<le> (10, s1)\<close>, is accepted and replaces the newer row: the strings compared are
  \<open>9,s0\<close> and \<open>10,s1\<close>. The other way round, with the row of timestamp 9 stored, the item of
  timestamp 10 is refused. The same happens with timestamps in microseconds that are one
  microsecond apart, 999999999999999 and 1000000000000000.
\<close>

theorem ingestItem_compares_strings:
  "ingestItem validByCutoff store10 row9 None = (True, store9) \<and>
   ingestItem validByCutoff store9 row10 None = (False, store9) \<and>
   ingestItem validByCutoff store16 rowDigits15 None = (True, store15) \<and>
   ingestItem validByCutoff store15 rowDigits16 None = (False, store15)"
  by (simp add: eval_defs store9_def store10_def row9_def row10_def store15_def store16_def
      rowDigits15_def rowDigits16_def validByCutoff_def)

text \<open>
  C2, the code at the failing input. The two valid documents of timestamps 9 and 10, for
  one key and author, are ingested into the empty store in both orders. Both orders end
  with the same row, and it is the document of timestamp 9, not the maximum.
\<close>

theorem ingest_orders_keep_lesser:
  "ingestAll validByCutoff emptyStore [row9, row10] 0 = (1, store9) \<and>
   ingestAll validByCutoff emptyStore [row10, row9] 0 = (2, store9)"
  by (simp add: eval_defs emptyStore_def store9_def row9_def row10_def validByCutoff_def)

section \<open>Queries: one row for each key\<close>

lemma set_insertBy: "set (insertBy le x xs) = insert x (set xs)"
  by (induction xs) auto

lemma set_orderBy: "set (orderBy le xs) = set xs"
  by (induction xs) (auto simp: orderBy_def set_insertBy)

lemma length_insertBy: "length (insertBy le x xs) = Suc (length xs)"
  by (induction xs) auto

lemma length_orderBy: "length (orderBy le xs) = length xs"
  by (induction xs) (auto simp: orderBy_def length_insertBy)

lemma orderBy_Nil_iff: "orderBy le xs = [] \<longleftrightarrow> xs = []"
  using length_orderBy [of le xs] by (metis length_0_conv)

lemma distinct_map_insertBy:
  "distinct (map f (insertBy le x xs)) = (f x \<notin> f ` set xs \<and> distinct (map f xs))"
  by (induction xs) (auto simp: set_insertBy)

lemma distinct_map_orderBy: "distinct (map f (orderBy le xs)) = distinct (map f xs)"
  by (induction xs) (auto simp: orderBy_def distinct_map_insertBy set_insertBy set_orderBy [unfolded orderBy_def])

lemma sorted_key_insertBy:
  "sorted (map key xs) \<Longrightarrow> sorted (map key (insertBy rowOrder x xs))"
  by (induction xs) (auto simp: set_insertBy rowOrder_def)

lemma sorted_key_orderBy: "sorted (map key (orderBy rowOrder xs))"
  by (induction xs) (auto simp: orderBy_def sorted_key_insertBy)

lemma maxTimestampRow_mem: "maxTimestampRow best rs \<in> set (best # rs)"
  by (induction rs arbitrary: best) (auto split: if_splits)

lemma maxTimestampRow_ge_best: "timestamp best \<le> timestamp (maxTimestampRow best rs)"
proof (induction rs arbitrary: best)
  case Nil
  then show ?case by simp
next
  case (Cons a rs)
  let ?b = "if timestamp best < timestamp a then a else best"
  have "timestamp best \<le> timestamp ?b" by simp
  also have "\<dots> \<le> timestamp (maxTimestampRow ?b rs)" by (rule Cons.IH)
  finally show ?case by simp
qed

lemma maxTimestampRow_ge:
  "r \<in> set (best # rs) \<Longrightarrow> timestamp r \<le> timestamp (maxTimestampRow best rs)"
proof (induction rs arbitrary: best)
  case Nil
  then show ?case by simp
next
  case (Cons a rs)
  let ?b = "if timestamp best < timestamp a then a else best"
  from Cons.prems consider "r = best" | "r = a" | "r \<in> set rs" by auto
  then show ?case
  proof cases
    case 1
    then show ?thesis using maxTimestampRow_ge_best [of best "a # rs"] by simp
  next
    case 2
    have "timestamp a \<le> timestamp ?b" by simp
    also have "\<dots> \<le> timestamp (maxTimestampRow ?b rs)" by (rule maxTimestampRow_ge_best)
    finally show ?thesis using 2 by simp
  next
    case 3
    then have "timestamp r \<le> timestamp (maxTimestampRow ?b rs)"
      using Cons.IH [of ?b] by simp
    then show ?thesis by simp
  qed
qed

lemma groupMax_key:
  "k \<in> set (map key rows) \<Longrightarrow> map key (groupMax (groupRows rows k)) = [k]"
proof -
  assume "k \<in> set (map key rows)"
  then obtain r rs where g: "groupRows rows k = r # rs"
    by (cases "groupRows rows k") (auto simp: groupRows_def filter_empty_conv)
  have "maxTimestampRow r rs \<in> set (groupRows rows k)"
    using maxTimestampRow_mem [of r rs] g by simp
  then have "key (maxTimestampRow r rs) = k" by (simp add: groupRows_def)
  with g show ?thesis by (simp add: groupMax_def)
qed

lemma key_groupByKeyMax: "map key (groupByKeyMax rows) = remdups (map key rows)"
proof -
  have "\<And>ks. set ks \<subseteq> set (map key rows) \<Longrightarrow>
      map key (concat (map (\<lambda>k. groupMax (groupRows rows k)) ks)) = ks"
  proof -
    fix ks show "set ks \<subseteq> set (map key rows) \<Longrightarrow>
      map key (concat (map (\<lambda>k. groupMax (groupRows rows k)) ks)) = ks"
      by (induction ks) (simp_all add: groupMax_key del: set_map)
  qed
  from this [of "remdups (map key rows)"] show ?thesis
    by (simp add: groupByKeyMax_def)
qed

lemma groupByKeyMax_winner:
  assumes "r \<in> set (groupByKeyMax rows)"
  shows "r \<in> set rows \<and> (\<forall>r' \<in> set rows. key r' = key r \<longrightarrow> timestamp r' \<le> timestamp r)"
proof -
  from assms obtain k where k: "r \<in> set (groupMax (groupRows rows k))"
    by (auto simp: groupByKeyMax_def)
  then obtain b rs where g: "groupRows rows k = b # rs" and r: "r = maxTimestampRow b rs"
    by (cases "groupRows rows k") (auto simp: groupMax_def)
  have mem: "r \<in> set (groupRows rows k)"
    using maxTimestampRow_mem [of b rs] g r by simp
  then have "r \<in> set rows" "key r = k" by (simp_all add: groupRows_def)
  moreover have "timestamp r' \<le> timestamp r" if "r' \<in> set rows" "key r' = key r" for r'
  proof -
    from that \<open>key r = k\<close> have "r' \<in> set (b # rs)" using g by (simp add: groupRows_def flip: g)
    then show ?thesis using maxTimestampRow_ge r by blast
  qed
  ultimately show ?thesis by blast
qed


lemma matchesQuery_withoutLimit: "matchesQuery (withoutLimit q) = matchesQuery q"
  by (rule ext) (simp add: matchesQuery_def withoutLimit_def)

lemma items_limit:
  "items rows (Some q) = limitClause q (items rows (Some (withoutLimit q)))"
  by (simp add: items_def Let_def matchesQuery_withoutLimit)
     (simp add: limitClause_def withoutLimit_def)

lemma firstRow_None_iff: "firstRow xs = None \<longleftrightarrow> xs = []"
  by (cases xs) (simp_all add: firstRow_def)

lemma existing_None_iff:
  "existingSameAuthorSameKey rows item = None \<longleftrightarrow> (\<forall>r \<in> set rows. \<not> samePrimaryKey r item)"
  by (simp add: existingSameAuthorSameKey_def firstRow_None_iff orderBy_Nil_iff filter_empty_conv
      samePrimaryKey_def)

lemma insert_new_row:
  "\<forall>r \<in> set rows. \<not> samePrimaryKey r item \<Longrightarrow> insertOrReplace rows item = rows @ [item]"
  by (simp add: insertOrReplace_def)

lemma ingestItem_new_row:
  assumes "itemIsValid item futureCutoff" and "\<forall>r \<in> set (db this). \<not> samePrimaryKey r item"
  shows "ingestItem itemIsValid this item futureCutoff = (True, this\<lparr>db := db this @ [item]\<rparr>)"
proof -
  from assms(2) have "existingSameAuthorSameKey (db this) item = None"
    by (simp add: existing_None_iff)
  with assms show ?thesis by (simp add: ingestItem_def insert_new_row)
qed

lemma ingestAll_new_rows:
  assumes "\<forall>d \<in> set ds. itemIsValid d None"
    and "distinct (map (\<lambda>d. (key d, author d)) ds)"
    and "\<forall>d \<in> set ds. \<forall>r \<in> set (db this). \<not> samePrimaryKey r d"
  shows "ingestAll itemIsValid this ds n = (n + length ds, this\<lparr>db := db this @ ds\<rparr>)"
  using assms
proof (induction ds arbitrary: this n)
  case Nil
  then show ?case by simp
next
  case (Cons d ds)
  let ?st1 = "this\<lparr>db := db this @ [d]\<rparr>"
  have step: "ingestItem itemIsValid this d None = (True, ?st1)"
    using Cons.prems by (intro ingestItem_new_row) simp_all
  have fresh: "\<forall>x \<in> set ds. \<forall>r \<in> set (db ?st1). \<not> samePrimaryKey r x"
    using Cons.prems by (auto simp: samePrimaryKey_def)
  have "ingestAll itemIsValid ?st1 ds (n + 1) = (n + 1 + length ds, ?st1\<lparr>db := db ?st1 @ ds\<rparr>)"
    using Cons.prems fresh by (intro Cons.IH) simp_all
  with step show ?case by simp
qed

lemma length_filter_insertBy:
  "length (filter P (insertBy le x xs)) = length (filter P (x # xs))"
  by (induction xs) auto

lemma length_filter_orderBy: "length (filter P (orderBy le xs)) = length (filter P xs)"
  by (induction xs) (simp_all add: orderBy_def length_filter_insertBy)

lemma set_byPrimaryKey: "set (byPrimaryKey rows) = set rows"
  by (simp add: byPrimaryKey_def set_orderBy)

lemma set_items_history:
  "includeHistory q = Some True \<Longrightarrow>
   set (items rows (Some (withoutLimit q))) = {r \<in> set rows. matchesQuery q r}"
  by (simp add: items_def Let_def limitClause_def withoutLimit_def set_orderBy
      set_byPrimaryKey matchesQuery_def)

lemma items_None: "items rows None = items rows (Some emptyQuery)"
  by (simp add: items_def)

text \<open>
  What holds of a query without history, whatever the table: the result is the result of
  the same query without its limit, cut to the first \<open>limit\<close> rows when the limit is
  positive; the result without the limit has exactly one row for each key that matches,
  in ascending order of the keys; and each row is a row of the table whose timestamp is
  the greatest among all rows of its key, whoever the author.
\<close>

lemma items_max_timestamp_per_key:
  assumes h: "includeHistory q \<noteq> Some True"
  shows "items rows (Some q) = limitClause q (items rows (Some (withoutLimit q)))"
    and "distinct (map key (items rows (Some (withoutLimit q))))"
    and "sorted (map key (items rows (Some (withoutLimit q))))"
    and "set (map key (items rows (Some (withoutLimit q)))) =
           key ` {r \<in> set rows. matchesQuery q r}"
    and "\<forall>r \<in> set (items rows (Some (withoutLimit q))).
           r \<in> set rows \<and>
           (\<forall>r' \<in> set rows. key r' = key r \<longrightarrow> timestamp r' \<le> timestamp r)"
proof -
  show "items rows (Some q) = limitClause q (items rows (Some (withoutLimit q)))"
    by (rule items_limit)
  let ?m = "filter (matchesQuery q) (byPrimaryKey rows)"
  have full: "items rows (Some (withoutLimit q)) = orderBy rowOrder (groupByKeyMax ?m)"
    using h by (simp add: items_def Let_def matchesQuery_withoutLimit)
               (simp add: limitClause_def withoutLimit_def)
  show "distinct (map key (items rows (Some (withoutLimit q))))"
    by (simp add: full distinct_map_orderBy key_groupByKeyMax)
  show "sorted (map key (items rows (Some (withoutLimit q))))"
    by (simp add: full sorted_key_orderBy)
  have "set (map key (items rows (Some (withoutLimit q)))) = set (map key (groupByKeyMax ?m))"
    by (simp add: full set_orderBy)
  then show "set (map key (items rows (Some (withoutLimit q)))) =
      key ` {r \<in> set rows. matchesQuery q r}"
    by (simp add: key_groupByKeyMax set_byPrimaryKey)
  show "\<forall>r \<in> set (items rows (Some (withoutLimit q))).
      r \<in> set rows \<and> (\<forall>r' \<in> set rows. key r' = key r \<longrightarrow> timestamp r' \<le> timestamp r)"
  proof
    fix r assume "r \<in> set (items rows (Some (withoutLimit q)))"
    then have r: "r \<in> set (groupByKeyMax ?m)" by (simp add: full set_orderBy)
    from groupByKeyMax_winner [OF r]
    have in_m: "r \<in> set ?m"
      and top: "\<forall>r' \<in> set ?m. key r' = key r \<longrightarrow> timestamp r' \<le> timestamp r"
      by blast+
    have same: "matchesQuery q r'" if "key r' = key r" for r'
      using in_m that by (auto simp: matchesQuery_def split: option.splits)
    show "r \<in> set rows \<and> (\<forall>r' \<in> set rows. key r' = key r \<longrightarrow> timestamp r' \<le> timestamp r)"
      using in_m top same by (auto simp: set_byPrimaryKey)
  qed
qed

text \<open>
  Documents of one key from distinct authors: when they are valid and the store has no
  row of the key, all are accepted, each gets a row, and the query with history for the
  key returns exactly these rows.
\<close>

lemma ingest_distinct_authors_retained:
  assumes ds: "\<forall>d \<in> set ds. itemIsValid d None \<and> key d = k"
    and au: "distinct (map author ds)"
    and fresh: "\<forall>r \<in> set (db this). key r \<noteq> k"
  shows "ingestAll itemIsValid this ds 0 = (length ds, this\<lparr>db := db this @ ds\<rparr>)"
    and "set (items (db this @ ds) (Some (historyQuery\<lparr>key' := Some k\<rparr>))) = set ds"
    and "length (items (db this @ ds) (Some (historyQuery\<lparr>key' := Some k\<rparr>))) = length ds"
proof -
  have pk: "distinct (map (\<lambda>d. (key d, author d)) ds)"
    using au by (simp add: distinct_map inj_on_def)
  have "ingestAll itemIsValid this ds 0 = (0 + length ds, this\<lparr>db := db this @ ds\<rparr>)"
    using ds pk fresh by (intro ingestAll_new_rows) (auto simp: samePrimaryKey_def)
  then show "ingestAll itemIsValid this ds 0 = (length ds, this\<lparr>db := db this @ ds\<rparr>)"
    by simp
  have f: "filter (\<lambda>r. key r = k) (db this @ ds) = ds"
    using ds fresh by (simp add: filter_empty_conv filter_id_conv)
  have m: "matchesQuery (historyQuery\<lparr>key' := Some k\<rparr>) = (\<lambda>r. key r = k)"
    by (rule ext) (simp add: matchesQuery_def historyQuery_def emptyQuery_def)
  have it: "items (db this @ ds) (Some (historyQuery\<lparr>key' := Some k\<rparr>)) =
      orderBy rowOrder (filter (\<lambda>r. key r = k) (byPrimaryKey (db this @ ds)))"
    unfolding items_def Let_def option.case m
    by (simp add: historyQuery_def emptyQuery_def limitClause_def)
  have "set (filter (\<lambda>r. key r = k) (byPrimaryKey (db this @ ds))) =
      set (filter (\<lambda>r. key r = k) (db this @ ds))"
    by (simp only: set_filter set_byPrimaryKey)
  then show "set (items (db this @ ds) (Some (historyQuery\<lparr>key' := Some k\<rparr>))) = set ds"
    by (simp only: it set_orderBy f)
  have "length (filter (\<lambda>r. key r = k) (byPrimaryKey (db this @ ds))) =
      length (filter (\<lambda>r. key r = k) (db this @ ds))"
    by (simp add: byPrimaryKey_def length_filter_orderBy)
  then show "length (items (db this @ ds) (Some (historyQuery\<lparr>key' := Some k\<rparr>))) = length ds"
    by (simp only: it length_orderBy f)
qed

text \<open>The limit cuts the result: with two keys in the table and a limit of one, one row.\<close>

lemma items_limit_one:
  "matchesQuery limitOne rowM \<and> items [row20, rowM] (Some limitOne) = [row20]"
  by (simp add: eval_defs query_defs rowM_def row20_def limitOne_def)

text \<open>
  C3, the code at the failing input. Two valid documents of the key \<open>k\<close>, from the authors
  \<open>a\<close> and \<open>b\<close> and both of timestamp 5, are ingested into the empty store: both rows are
  retained. The signature of the row of \<open>b\<close> is the greater one, so its pair of timestamp
  and signature is the maximum, and \<open>getItem\<close> returns it. The query without history
  returns the row of \<open>a\<close>, in whichever order the two were ingested: the grouped query
  takes the greatest timestamp of the key, and its \<open>ORDER BY\<close> orders the groups, not the
  rows of a group.
\<close>

theorem items_tie_keeps_least_author:
  "ingestAll validByCutoff emptyStore [tieA, tieB] 0 = (2, emptyStore\<lparr>db := [tieA, tieB]\<rparr>) \<and>
   ingestAll validByCutoff emptyStore [tieB, tieA] 0 = (2, emptyStore\<lparr>db := [tieB, tieA]\<rparr>) \<and>
   timestamp tieB = timestamp tieA \<and> signature tieA < signature tieB \<and>
   items [tieA, tieB] (Some emptyQuery) = [tieA] \<and>
   items [tieB, tieA] (Some emptyQuery) = [tieA] \<and>
   items [tieA, tieB] (Some historyQuery) = [tieB, tieA] \<and>
   getItem [tieA, tieB] ''k'' = Some tieB \<and>
   getItem [tieB, tieA] ''k'' = Some tieB"
  by (simp add: eval_defs query_defs emptyStore_def tieA_def tieB_def validByCutoff_def)

section \<open>set: the timestamp and the write\<close>

text \<open>
  The timestamp of the item that \<open>set\<close> signs and offers: the greater of the requested
  timestamp (the clock when none is given, or one that is not positive) and the winning
  timestamp of the key plus one (one when the key has no row).
\<close>

lemma itemOfSet_timestamp:
  "timestamp (itemOfSet now this itemToSet) =
     max (case setTimestamp itemToSet of
            None \<Rightarrow> now
          | Some t \<Rightarrow> if 0 < t then t else now)
         ((case getItem (db this) (setKey itemToSet) of None \<Rightarrow> 0 | Some e \<Rightarrow> timestamp e) + 1)"
  by (simp add: itemOfSet_def Let_def split: option.splits)

text \<open>
  C4, the code at the failing input. The first \<open>set\<close>, with timestamp 9, stores its row.
  The second, by the same author on the same key with a timestamp in the past, builds an
  item of timestamp 10, and \<open>ingestItem\<close> refuses it: \<open>10,sig-second\<close> is less than
  \<open>9,sig-first\<close> as a string. The stored timestamp stays 9. A third \<open>set\<close> with no
  timestamp, at a clock of 1600000000000000 microseconds, is refused for the same reason.
\<close>

theorem set_refused_after_shorter_timestamp:
  "set_item validByCutoff demoSign 1600000000000000 emptyStore setAt9 = (True, storeSet9) \<and>
   set_item validByCutoff demoSign 1600000000000000 storeSet9 setInPast = (False, storeSet9) \<and>
   set_item validByCutoff demoSign 1600000000000000 storeSet9 setNow = (False, storeSet9)"
  by (simp add: set_item_def itemOfSet_def signItem_def query_defs Let_def
      eval_defs emptyStore_def storeSet9_def setAt9_def setInPast_def setNow_def demoSign_def
      validByCutoff_def)

section \<open>Syncing two stores: the guards and live sync\<close>

text \<open>
  C5. When the other store is the receiver itself, or the two stores have different
  workspaces, \<open>sync\<close> returns zero for both counts and leaves every store as it was,
  whatever the options are.
\<close>

theorem sync_guards_noop:
  "otherStore = this \<or> storeWorkspace (h this) \<noteq> storeWorkspace (h otherStore) \<Longrightarrow>
   sync itemIsValid h this otherStore opts = (Inr \<lparr>numPushed = 0, numPulled = 0\<rparr>, h)"
  by (auto simp: sync_def)

theorem sync_guards_noop_witness:
  "sync validByCutoff heapEx 0 0 (Some pushOpts) = (Inr \<lparr>numPushed = 0, numPulled = 0\<rparr>, heapEx) \<and>
   sync validByCutoff heapEx 0 2 None = (Inr \<lparr>numPushed = 0, numPulled = 0\<rparr>, heapEx)"
proof -
  have "storeWorkspace (heapEx 0) \<noteq> storeWorkspace (heapEx 2)"
    by (simp add: heapEx_def store20_def elsewhereStore_def)
  then show ?thesis
    using sync_guards_noop [of 0 0 heapEx validByCutoff "Some pushOpts"]
      sync_guards_noop [of 2 0 heapEx validByCutoff None]
    by simp
qed

text \<open>
  C6, as the code has it. The claim says that every call with \<open>live\<close> set fails. The two
  guards come first: a store synced with itself, or with a store of another workspace,
  returns zero counts even when \<open>live\<close> is set.
\<close>

theorem sync_live_guarded_counterexample:
  "sync validByCutoff heapEx 0 0 (Some liveOpts) = (Inr \<lparr>numPushed = 0, numPulled = 0\<rparr>, heapEx) \<and>
   sync validByCutoff heapEx 0 2 (Some liveOpts) = (Inr \<lparr>numPushed = 0, numPulled = 0\<rparr>, heapEx)"
  by (simp add: sync_def heapEx_def store20_def elsewhereStore_def)

text \<open>
  C6, amended. When the other store is another object of the same workspace, a call with
  \<open>live\<close> set throws \<open>live sync not implemented yet\<close> for every direction, before any item
  is read or ingested: no store has changed.
\<close>

theorem sync_live_throws:
  assumes "otherStore \<noteq> this"
    and "storeWorkspace (h this) = storeWorkspace (h otherStore)"
    and "live opts = Some True"
  shows "sync itemIsValid h this otherStore (Some opts) =
           (Inl (Thrown ''live sync not implemented yet''), h)"
proof (cases "direction opts")
  case None
  with assms show ?thesis by (simp add: sync_def syncFrom_def)
next
  case (Some d)
  with assms show ?thesis by (cases d) (simp_all add: sync_def syncFrom_def)
qed

theorem sync_live_throws_witness:
  "sync validByCutoff heapEx 0 1 (Some liveOpts) =
     (Inl (Thrown ''live sync not implemented yet''), heapEx)"
proof -
  have "(1::nat) \<noteq> 0" by simp
  moreover have "storeWorkspace (heapEx 0) = storeWorkspace (heapEx 1)"
    by (simp add: heapEx_def store20_def emptyStore_def)
  moreover have "live liveOpts = Some True" by (simp add: liveOpts_def)
  ultimately show ?thesis by (rule sync_live_throws)
qed

section \<open>One pass against a pub: transport failures and 404\<close>

text \<open>
  C7, as the code has it. The claim says that a transport failure in either phase leaves
  both outcomes \<open>null\<close>. Here the pull brings one document, which is ingested, and the
  POST cannot connect: the pass returns with the pull outcome set to the tallies of the
  pull, and only the push outcome is \<open>null\<close>.
\<close>

theorem push_failure_keeps_pull_counterexample:
  "fetchPost envPullThenDown (demoUrl ''pub.example'') [row10] = None \<and>
   syncLocalAndHttp envPullThenDown emptyStore ''https://pub.example'' =
     (Inr \<lparr>pull = Some \<lparr>numIngested = 1, numIgnored = 0, numTotal = 1\<rparr>, push = None,
           pushStats = None\<rparr>,
      \<lparr>storeWorkspace = ''//demo'', db = [row10]\<rparr>,
      [GET (demoUrl ''pub.example''), POST (demoUrl ''pub.example'') [row10]])"
  by (simp add: envPullThenDown_def pass_defs query_defs eval_defs emptyStore_def row10_def
      validByCutoff_def)

text \<open>
  C7, amended. When the GET cannot connect, the pass returns at once: both outcomes are
  \<open>null\<close>, nothing is ingested and no POST is made. When the GET is answered, the pull
  completes and the POST cannot connect, the pass returns at once with the push outcome
  \<open>null\<close> and the pull outcome holding the tallies of the pull. In both cases the pass
  returns a result: no exception escapes.
\<close>

theorem transport_failure_aborts:
  "(fetchGet env (pubUrl env st d) = None \<longrightarrow>
      syncLocalAndHttp env st d =
        (Inr \<lparr>pull = None, push = None, pushStats = None\<rparr>, st, [GET (pubUrl env st d)])) \<and>
   (fetchGet env (pubUrl env st d) = Some resp \<longrightarrow>
    pullPhase env st resp = (Inr stats, st1) \<longrightarrow>
    fetchPost env (pubUrl env st1 d) (documents env st1) = None \<longrightarrow>
      syncLocalAndHttp env st d =
        (Inr \<lparr>pull = Some stats, push = None, pushStats = None\<rparr>, st1,
         [GET (pubUrl env st d), POST (pubUrl env st1 d) (documents env st1)]))"
  by (simp add: syncLocalAndHttp_def pubUrl_def urlPostDocuments_def Let_def)

theorem transport_failure_aborts_witness:
  "syncLocalAndHttp envDown store20 ''https://pub.example'' =
     (Inr \<lparr>pull = None, push = None, pushStats = None\<rparr>, store20,
      [GET (demoUrl ''pub.example'')]) \<and>
   syncLocalAndHttp envPullThenDown store20 ''https://pub.example'' =
     (Inr \<lparr>pull = Some \<lparr>numIngested = 0, numIgnored = 1, numTotal = 1\<rparr>, push = None,
           pushStats = None\<rparr>,
      store20,
      [GET (demoUrl ''pub.example''), POST (demoUrl ''pub.example'') [row20]])"
proof -
  let ?resp = "\<lparr>status = 200, json = Some [row10]\<rparr>"
  let ?stats = "\<lparr>numIngested = 0, numIgnored = 1, numTotal = 1\<rparr>"
  have down: "fetchGet envDown (pubUrl envDown store20 ''https://pub.example'') = None"
    by (simp add: envDown_def sqliteEnv_def)
  have url1: "pubUrl envDown store20 ''https://pub.example'' = demoUrl ''pub.example''"
    by (simp add: envDown_def pass_defs store20_def)
  have get: "fetchGet envPullThenDown (pubUrl envPullThenDown store20 ''https://pub.example'') =
      Some ?resp"
    by (simp add: envPullThenDown_def sqliteEnv_def)
  have pulled: "pullPhase envPullThenDown store20 ?resp = (Inr ?stats, store20)"
    by (simp add: envPullThenDown_def pass_defs eval_defs store20_def row20_def row10_def
        validByCutoff_def)
  have post: "fetchPost envPullThenDown (pubUrl envPullThenDown store20 ''https://pub.example'')
      (documents envPullThenDown store20) = None"
    by (simp add: envPullThenDown_def sqliteEnv_def)
  have url2: "pubUrl envPullThenDown store20 ''https://pub.example'' = demoUrl ''pub.example''"
    by (simp add: envPullThenDown_def pass_defs store20_def)
  have docs: "documents envPullThenDown store20 = [row20]"
    by (simp add: envPullThenDown_def pass_defs query_defs eval_defs store20_def)
  from transport_failure_aborts [of envDown store20 "''https://pub.example''"] down url1
  have first: "syncLocalAndHttp envDown store20 ''https://pub.example'' =
      (Inr \<lparr>pull = None, push = None, pushStats = None\<rparr>, store20,
       [GET (demoUrl ''pub.example'')])"
    by simp
  from transport_failure_aborts
    [of envPullThenDown store20 "''https://pub.example''" ?resp ?stats store20]
    get pulled post url2 docs
  have second: "syncLocalAndHttp envPullThenDown store20 ''https://pub.example'' =
      (Inr \<lparr>pull = Some ?stats, push = None, pushStats = None\<rparr>, store20,
       [GET (demoUrl ''pub.example''), POST (demoUrl ''pub.example'') [row20]])"
    by simp
  from first second show ?thesis by simp
qed

text \<open>
  C8. When the GET of the pull is answered with status 404, no document is ingested (the
  storage is the one the pass started with), the POST of the push is made next, and a
  pass that returns a result has the pull outcome with zero ingested, zero ignored and
  zero in total. The pass can only end in an exception through the answer to the POST:
  one whose status is neither 404 nor 403 and whose body does not parse.
\<close>

theorem pull_404_is_no_error:
  assumes "fetchGet env (pubUrl env st d) = Some resp" and "status resp = 404"
  shows "snd (syncLocalAndHttp env st d) =
           (st, [GET (pubUrl env st d), POST (pubUrl env st d) (documents env st)]) \<and>
         (\<forall>r. fst (syncLocalAndHttp env st d) = Inr r \<longrightarrow> pull r = Some noPull) \<and>
         (\<forall>e. fst (syncLocalAndHttp env st d) = Inl e \<longrightarrow>
            (\<exists>resp2. fetchPost env (pubUrl env st d) (documents env st) = Some resp2 \<and>
               status resp2 \<noteq> 404 \<and> status resp2 \<noteq> 403 \<and> json resp2 = None))"
  using assms
  by (auto simp: syncLocalAndHttp_def pubUrl_def urlPostDocuments_def pullPhase_def noPull_def
      Let_def split: option.splits)

lemma env404_run:
  "syncLocalAndHttp env404 store20 ''https://pub.example'' =
     (Inr \<lparr>pull = Some noPull, push = None,
           pushStats = Some \<lparr>numIngested = 1, numIgnored = 0, numTotal = 1\<rparr>\<rparr>,
      store20,
      [GET (demoUrl ''pub.example''), POST (demoUrl ''pub.example'') [row20]])"
  by (simp add: env404_def pass_defs query_defs eval_defs store20_def row20_def noPull_def
      serverTakesAll_def)

theorem pull_404_is_no_error_witness:
  "snd (syncLocalAndHttp env404 store20 ''https://pub.example'') =
     (store20, [GET (demoUrl ''pub.example''), POST (demoUrl ''pub.example'') [row20]]) \<and>
   fst (syncLocalAndHttp env404 store20 ''https://pub.example'') =
     Inr \<lparr>pull = Some noPull, push = None,
          pushStats = Some \<lparr>numIngested = 1, numIgnored = 0, numTotal = 1\<rparr>\<rparr> \<and>
   pull \<lparr>pull = Some noPull, push = None,
         pushStats = Some \<lparr>numIngested = 1, numIgnored = 0, numTotal = 1\<rparr>\<rparr> = Some noPull"
proof -
  let ?resp = "\<lparr>status = 404, json = None\<rparr> :: Item list Response"
  have get: "fetchGet env404 (pubUrl env404 store20 ''https://pub.example'') = Some ?resp"
    by (simp add: env404_def sqliteEnv_def)
  have st: "status ?resp = 404" by simp
  have url: "pubUrl env404 store20 ''https://pub.example'' = demoUrl ''pub.example''"
    by (simp add: env404_def pass_defs store20_def)
  have docs: "documents env404 store20 = [row20]"
    by (simp add: env404_def pass_defs query_defs eval_defs store20_def)
  from pull_404_is_no_error [OF get st] url docs env404_run show ?thesis
    by simp
qed

text \<open>
  No branch of the pass assigns the push outcome (the answer to the POST is stored as
  \<open>pushStats\<close>), and the pass returns a result whenever the bodies it reads parse.
\<close>

lemma pass_never_sets_push:
  "fst (syncLocalAndHttp env st d) = Inr r \<Longrightarrow> push r = None"
  by (auto simp: syncLocalAndHttp_def Let_def split: option.splits sum.splits prod.splits if_splits)

lemma pass_returns:
  assumes "\<forall>url resp. fetchGet env url = Some resp \<longrightarrow> status resp = 404 \<or> json resp \<noteq> None"
    and "\<forall>url body resp. fetchPost env url body = Some resp \<longrightarrow>
           status resp = 404 \<or> status resp = 403 \<or> json resp \<noteq> None"
  shows "\<exists>r. fst (syncLocalAndHttp env st d) = Inr r"
proof (cases "fetchGet env (pubUrl env st d)")
  case None
  then show ?thesis by (simp add: syncLocalAndHttp_def pubUrl_def Let_def)
next
  case (Some resp)
  with assms(1) have ok: "status resp = 404 \<or> json resp \<noteq> None" by blast
  then have "\<exists>stats st1. pullPhase env st resp = (Inr stats, st1)"
    by (auto simp: pullPhase_def Let_def split: prod.splits)
  then obtain stats st1 where pp: "pullPhase env st resp = (Inr stats, st1)"
    by blast
  show ?thesis
  proof (cases "fetchPost env (pubUrl env st1 d) (documents env st1)")
    case None
    with Some pp show ?thesis
      by (simp add: syncLocalAndHttp_def pubUrl_def urlPostDocuments_def Let_def)
  next
    case (Some resp2)
    with assms(2) have "status resp2 = 404 \<or> status resp2 = 403 \<or> json resp2 \<noteq> None" by blast
    with \<open>fetchGet env (pubUrl env st d) = Some resp\<close> pp Some show ?thesis
      by (auto simp: syncLocalAndHttp_def pubUrl_def urlPostDocuments_def Let_def)
  qed
qed

section \<open>The syncer: how a run classifies the pubs\<close>









text \<open>A run visits every pub whenever the bodies it reads parse.\<close>

lemma syncPubs_returns:
  assumes "\<forall>url resp. fetchGet env url = Some resp \<longrightarrow> status resp = 404 \<or> json resp \<noteq> None"
    and "\<forall>url body resp. fetchPost env url body = Some resp \<longrightarrow>
           status resp = 404 \<or> status resp = 403 \<or> json resp \<noteq> None"
  shows "fst (syncPubs env ps run) = None"
proof (induction ps arbitrary: run)
  case Nil
  then show ?case by simp
next
  case (Cons pub rest)
  from pass_returns [OF assms] obtain r where
    "fst (syncLocalAndHttp env (storage run) (domain pub)) = Inr r" by blast
  then obtain st1 reqs where
    "syncLocalAndHttp env (storage run) (domain pub) = (Inr r, st1, reqs)"
    by (cases "syncLocalAndHttp env (storage run) (domain pub)") auto
  moreover have "e = None" if "syncPubs env rest run' = (e, a, b)" for run' e a b
    using Cons.IH [of run'] that by simp
  ultimately show ?case
    by (auto simp: Let_def split: prod.splits)
qed

lemma Syncer_sync_returns:
  assumes "\<forall>url resp. fetchGet env url = Some resp \<longrightarrow> status resp = 404 \<or> json resp \<noteq> None"
    and "\<forall>url body resp. fetchPost env url body = Some resp \<longrightarrow>
           status resp = 404 \<or> status resp = 403 \<or> json resp \<noteq> None"
  shows "fst (Syncer_sync env state st) = None"
  using syncPubs_returns [OF assms, of "pubs state" "newRun st"]
  by (auto simp: Syncer_sync_def Let_def split: prod.splits option.splits)





section \<open>Rejection leaves the table alone\<close>

text \<open>
  C10. Whenever \<open>ingestItem\<close> returns false, for an invalid item or for one that is not
  newer than the stored row of its key and author, the store is the one it was called on:
  no row is inserted, replaced or deleted.
\<close>

theorem ingestItem_false_unchanged:
  "ingestItem itemIsValid this item futureCutoff = (False, this') \<Longrightarrow> this' = this"
  by (auto simp: ingestItem_def split: if_splits option.splits)

text \<open>
  The theorem at a stale item: the row of timestamp 20 is stored, the item of timestamp 10
  from the same author is refused and the store stays as it was.
\<close>

lemma refuses_row10_store20:
  "fst (ingestItem validByCutoff store20 row10 None) = False"
  by (simp add: eval_defs store20_def row20_def row10_def validByCutoff_def)

theorem ingestItem_false_unchanged_witness:
  "fst (ingestItem validByCutoff store20 row10 None) = False \<and>
   snd (ingestItem validByCutoff store20 row10 None) = store20"
proof -
  have "ingestItem validByCutoff store20 row10 None =
      (False, snd (ingestItem validByCutoff store20 row10 None))"
    using refuses_row10_store20 by (metis prod.collapse)
  from ingestItem_false_unchanged [OF this] refuses_row10_store20
  show ?thesis by simp
qed

end
